theory Spec2Isabelle
  imports Complex_Main "HOL-Library.Char_ord" "HOL-Library.List_Lexorder"
begin

section \<open>Values, errors and the file system\<close>

text \<open>
  A shallow embedding of \<^verbatim>\<open>update-index.py\<close>. Python values that reach the
  program through \<^verbatim>\<open>json.load\<close> are the constructors of \<open>json\<close>; \<open>JNull\<close> is
  Python's \<^verbatim>\<open>None\<close>, a dictionary is an association list read with \<open>map_of\<close>.
  Strings are byte strings (UTF-8); the character classes below are their ASCII
  parts.
\<close>

datatype pyfloat = Finite rat | PosInf | NegInf | NaN

datatype json =
    JNull
  | JBool bool
  | JInt int
  | JFloat pyfloat
  | JStr string
  | JArr "json list"
  | JObj "(string \<times> json) list"

text \<open>The exceptions the modelled code can let escape.\<close>

datatype py_error = AttributeError | IsADirectoryError | ReError

text \<open>A file-system entry: a text file with its decoded content, or a directory
  with its listing in the order the operating system returns it.\<close>

datatype node = File string | Dir "(string \<times> node) list"

fun is_dir :: "node \<Rightarrow> bool" where
  "is_dir (Dir _) = True"
| "is_dir (File _) = False"

text \<open>\<^verbatim>\<open>(dir_path / name).exists()\<close> and the lookup of a child.\<close>

definition child :: "(string \<times> node) list \<Rightarrow> string \<Rightarrow> node option" where
  "child entries nm = map_of entries nm"

text \<open>Truthiness of a Python value (\<^verbatim>\<open>if x:\<close>).\<close>

fun truthy :: "json \<Rightarrow> bool" where
  "truthy JNull = False"
| "truthy (JBool b) = b"
| "truthy (JInt i) = (i \<noteq> 0)"
| "truthy (JFloat f) = (f \<noteq> Finite 0)"
| "truthy (JStr s) = (s \<noteq> [])"
| "truthy (JArr xs) = (xs \<noteq> [])"
| "truthy (JObj kvs) = (kvs \<noteq> [])"

text \<open>Sequencing of computations that may raise.\<close>

definition bind_err :: "py_error + 'a \<Rightarrow> ('a \<Rightarrow> py_error + 'b) \<Rightarrow> py_error + 'b" where
  "bind_err m f = (case m of Inl e \<Rightarrow> Inl e | Inr x \<Rightarrow> f x)"

text \<open>\<^verbatim>\<open>d.get(k, default)\<close>: only a dictionary has the method.\<close>

definition dict_get :: "json \<Rightarrow> string \<Rightarrow> json \<Rightarrow> py_error + json" where
  "dict_get d k dflt =
     (case d of
        JObj kvs \<Rightarrow> Inr (case map_of kvs k of None \<Rightarrow> dflt | Some v \<Rightarrow> v)
      | _ \<Rightarrow> Inl AttributeError)"

definition is_space :: "char \<Rightarrow> bool" where
  "is_space c \<longleftrightarrow> of_char c \<in> {9, 10, 11, 12, 13, 28, 29, 30, 31, 32 :: nat}"

definition strip :: "string \<Rightarrow> string" where
  "strip s = rev (dropWhile is_space (rev (dropWhile is_space s)))"

text \<open>\<^verbatim>\<open>v.strip()\<close>: only a string has the method.\<close>

definition str_strip :: "json \<Rightarrow> py_error + string" where
  "str_strip v = (case v of JStr s \<Rightarrow> Inr (strip s) | _ \<Rightarrow> Inl AttributeError)"

section \<open>Decimal numerals\<close>

definition is_digit :: "char \<Rightarrow> bool" where
  "is_digit c \<longleftrightarrow> c \<in> set ''0123456789''"

definition digit_char :: "nat \<Rightarrow> char" where
  "digit_char k = ''0123456789'' ! k"

fun digits_of_nat :: "nat \<Rightarrow> string" where
  "digits_of_nat n =
     (if n < 10 then [digit_char n]
      else digits_of_nat (n div 10) @ [digit_char (n mod 10)])"

declare digits_of_nat.simps [simp del]

text \<open>The value of a character as a decimal digit and of a string of digits;
  they state what a rendered number or a run id means.\<close>

definition digit_val :: "char \<Rightarrow> nat" where
  "digit_val c = of_char c - 48"

definition nat_of_digits :: "string \<Rightarrow> nat" where
  "nat_of_digits s = foldl (\<lambda>acc c. 10 * acc + digit_val c) 0 s"

text \<open>\<^verbatim>\<open>f"{n:02d}"\<close>: the sign counts towards the width of two.\<close>

definition zfill :: "nat \<Rightarrow> string \<Rightarrow> string" where
  "zfill w s = replicate (w - length s) (CHR ''0'') @ s"

definition format_02d :: "int \<Rightarrow> string" where
  "format_02d n =
     (if n < 0 then CHR ''-'' # zfill 1 (digits_of_nat (nat (- n)))
      else zfill 2 (digits_of_nat (nat n)))"

section \<open>calculate_duration\<close>

text \<open>
  A \<^verbatim>\<open>datetime\<close> as the library holds it: civil fields and, for an aware value,
  the UTC offset in microseconds. \<^verbatim>\<open>datetime.fromisoformat\<close> is a parameter of
  the model (\<open>None\<close> is its \<^verbatim>\<open>ValueError\<close>); subtraction follows the library:
  ordinals of the dates, then the offsets when both values are aware, a
  \<^verbatim>\<open>TypeError\<close> when exactly one is.
\<close>

record datetime =
  dt_year :: int
  dt_month :: int
  dt_day :: int
  dt_hour :: int
  dt_minute :: int
  dt_second :: int
  dt_microsecond :: int
  dt_utcoffset :: "int option"

definition is_leap :: "int \<Rightarrow> bool" where
  "is_leap y \<longleftrightarrow> y mod 4 = 0 \<and> (y mod 100 \<noteq> 0 \<or> y mod 400 = 0)"

definition days_before_year :: "int \<Rightarrow> int" where
  "days_before_year year =
     (let y = year - 1 in y * 365 + y div 4 - y div 100 + y div 400)"

definition days_before_month :: "int \<Rightarrow> int \<Rightarrow> int" where
  "days_before_month year month =
     [-1, 0, 31, 59, 90, 120, 151, 181, 212, 243, 273, 304, 334] ! nat month
       + (if month > 2 \<and> is_leap year then 1 else 0)"

definition toordinal :: "datetime \<Rightarrow> int" where
  "toordinal d = days_before_year (dt_year d) + days_before_month (dt_year d) (dt_month d) + dt_day d"

text \<open>Microseconds of the civil (local) reading since the start of ordinal 0.\<close>

definition local_us :: "datetime \<Rightarrow> int" where
  "local_us d =
     ((toordinal d * 86400 + dt_hour d * 3600 + dt_minute d * 60 + dt_second d) * 1000000)
       + dt_microsecond d"

text \<open>\<^verbatim>\<open>end - start\<close> as a number of microseconds; \<open>None\<close> is the \<^verbatim>\<open>TypeError\<close>
  of mixing a naive and an aware value.\<close>

definition datetime_sub :: "datetime \<Rightarrow> datetime \<Rightarrow> int option" where
  "datetime_sub e s =
     (let base = local_us e - local_us s in
      case (dt_utcoffset e, dt_utcoffset s) of
        (None, None) \<Rightarrow> Some base
      | (Some myoff, Some otoff) \<Rightarrow> Some (base + otoff - myoff)
      | _ \<Rightarrow> None)"

text \<open>\<^verbatim>\<open>int(duration.total_seconds())\<close>: truncation towards zero.\<close>

definition total_seconds_int :: "int \<Rightarrow> int" where
  "total_seconds_int us = (if us < 0 then - ((- us) div 1000000) else us div 1000000)"

text \<open>\<^verbatim>\<open>s.replace('Z', '+00:00')\<close>: every occurrence.\<close>

definition replace_Z :: "string \<Rightarrow> string" where
  "replace_Z s = concat (map (\<lambda>c. if c = CHR ''Z'' then ''+00:00'' else [c]) s)"

definition format_hms :: "int \<Rightarrow> string" where
  "format_hms total_seconds =
     (let hours = total_seconds div 3600;
          minutes = (total_seconds mod 3600) div 60;
          seconds = total_seconds mod 60
      in format_02d hours @ '':'' @ format_02d minutes @ '':'' @ format_02d seconds)"

definition calculate_duration ::
  "(string \<Rightarrow> datetime option) \<Rightarrow> string \<Rightarrow> string \<Rightarrow> string option" where
  "calculate_duration fromisoformat started_at completed_at =
     (if started_at = [] \<or> completed_at = [] then None
      else case fromisoformat (replace_Z started_at) of
        None \<Rightarrow> None
      | Some start \<Rightarrow>
         (case fromisoformat (replace_Z completed_at) of
            None \<Rightarrow> None
          | Some end \<Rightarrow>
             (case datetime_sub end start of
                None \<Rightarrow> None
              | Some duration \<Rightarrow> Some (format_hms (total_seconds_int duration)))))"

section \<open>load_workflow_metadata\<close>

record metadata =
  md_actor :: json
  md_release_version :: json
  md_started_at :: json
  md_duration_formatted :: json

definition metadata_absent :: metadata where
  "metadata_absent =
     \<lparr>md_actor = JNull, md_release_version = JNull, md_started_at = JNull,
      md_duration_formatted = JNull\<rparr>"

text \<open>The body of the \<^verbatim>\<open>try\<close> block after \<^verbatim>\<open>json.load\<close> has returned \<open>data\<close>.\<close>

definition extract_metadata :: "(string \<Rightarrow> datetime option) \<Rightarrow> json \<Rightarrow> py_error + metadata" where
  "extract_metadata fromisoformat data =
     bind_err (dict_get data ''workflow'' (JObj [])) (\<lambda>workflow.
     bind_err (dict_get workflow ''actor'' (JStr ''Unknown'')) (\<lambda>actor.
     bind_err (dict_get data ''inputs'' (JObj [])) (\<lambda>inputs.
     bind_err (dict_get inputs ''release-version'' (JStr ''Unknown'')) (\<lambda>release_version.
     bind_err (dict_get data ''execution'' (JObj [])) (\<lambda>execution.
     bind_err (dict_get execution ''started_at'' (JStr [])) (\<lambda>started_raw.
     bind_err (str_strip started_raw) (\<lambda>started_at.
     bind_err (dict_get execution ''duration_formatted'' JNull) (\<lambda>duration0.
     bind_err
       (if \<not> truthy duration0 then
          bind_err (dict_get execution ''completed_at'' (JStr [])) (\<lambda>completed_raw.
          bind_err (str_strip completed_raw) (\<lambda>completed_at.
            Inr (if started_at \<noteq> [] \<and> completed_at \<noteq> [] then
                   (case calculate_duration fromisoformat started_at completed_at of
                      None \<Rightarrow> JNull
                    | Some d \<Rightarrow> JStr d)
                 else duration0)))
        else Inr duration0) (\<lambda>duration_formatted.
     Inr \<lparr>md_actor = (if actor \<noteq> JStr ''Unknown'' then actor else JNull),
          md_release_version =
            (if release_version \<noteq> JStr ''Unknown'' then release_version else JNull),
          md_started_at = (if started_at \<noteq> [] then JStr started_at else JNull),
          md_duration_formatted =
            (if truthy duration_formatted then duration_formatted else JNull)\<rparr>)))))))))"

definition parse_warning :: "string \<Rightarrow> string \<Rightarrow> string" where
  "parse_warning dir_name e = ''Warning: Could not parse metadata for '' @ dir_name @ '': '' @ e"

text \<open>
  The loader, given the directory's name and listing. \<^verbatim>\<open>json.load\<close> is a
  parameter: \<open>Inl e\<close> is a \<^verbatim>\<open>JSONDecodeError\<close> with message \<open>e\<close>. The result
  pairs the lines printed with the value returned or the exception raised.
\<close>

definition load_workflow_metadata ::
  "(string \<Rightarrow> string + json) \<Rightarrow> (string \<Rightarrow> datetime option) \<Rightarrow> string \<Rightarrow>
   (string \<times> node) list \<Rightarrow> string list \<times> (py_error + metadata)" where
  "load_workflow_metadata json_load fromisoformat dir_name entries =
     (case child entries ''workflow-metadata.json'' of
        None \<Rightarrow> ([], Inr metadata_absent)
      | Some (Dir _) \<Rightarrow> ([], Inl IsADirectoryError)
      | Some (File text) \<Rightarrow>
          (case json_load text of
             Inl e \<Rightarrow> ([parse_warning dir_name e], Inr metadata_absent)
           | Inr data \<Rightarrow> ([], extract_metadata fromisoformat data)))"

subsection \<open>Notions used to state the duration's properties\<close>







subsection \<open>Notions used to state the loader's properties\<close>






text \<open>Two names for parts of \<open>extract_metadata\<close>, used in the proofs: the
  normalisation of the sentinel and the lines that read \<^verbatim>\<open>execution\<close>.\<close>

definition unsentinel :: "json \<Rightarrow> json" where
  "unsentinel v = (if v \<noteq> JStr ''Unknown'' then v else JNull)"


text \<open>A table of sample sidecar texts with the value \<^verbatim>\<open>json.load\<close> returns for
  each; any other text stands for one that \<^verbatim>\<open>json.load\<close> rejects. It supplies
  the parser in the closed examples below.\<close>

definition sample_json_load :: "string \<Rightarrow> string + json" where
  "sample_json_load text =
     (if text = ''{}'' then Inr (JObj [])
      else if text = ''{\"workflow\": {\"event\": \"push\"}}'' then
        Inr (JObj [(''workflow'', JObj [(''event'', JStr ''push'')])])
      else if text = ''{\"workflow\": {\"actor\": \"octocat\"}}'' then
        Inr (JObj [(''workflow'', JObj [(''actor'', JStr ''octocat'')])])
      else if text = ''{\"workflow\": {\"actor\": \"Unknown\"}, \"inputs\": {\"release-version\": \"Unknown\"}}'' then
        Inr (JObj [(''workflow'', JObj [(''actor'', JStr ''Unknown'')]),
                   (''inputs'', JObj [(''release-version'', JStr ''Unknown'')])])
      else Inl ''Expecting value: line 1 column 1 (char 0)'')"

section \<open>scan_workflow_directories\<close>

record workflow =
  name :: string
  year :: string
  month :: string
  day :: string
  run_id :: string
  has_index :: bool
  job_count :: nat
  actor :: json
  release_version :: json
  started_at :: json
  duration_formatted :: json

text \<open>
  \<^verbatim>\<open>re.match(r'(\d{4})-(\d{2})-(\d{2})-(\d+)', s)\<close>: anchored at the start of the
  string, nothing required after the last group, which is greedy. The result
  holds the four groups.
\<close>

definition digits_n :: "nat \<Rightarrow> string \<Rightarrow> (string \<times> string) option" where
  "digits_n n s =
     (if n \<le> length s \<and> list_all is_digit (take n s) then Some (take n s, drop n s) else None)"

definition lit_char :: "char \<Rightarrow> string \<Rightarrow> string option" where
  "lit_char c s = (case s of [] \<Rightarrow> None | x # xs \<Rightarrow> if x = c then Some xs else None)"

definition re_match_workflow :: "string \<Rightarrow> (string \<times> string \<times> string \<times> string) option" where
  "re_match_workflow s =
     Option.bind (digits_n 4 s) (\<lambda>(y, s1).
     Option.bind (lit_char (CHR ''-'') s1) (\<lambda>s2.
     Option.bind (digits_n 2 s2) (\<lambda>(m, s3).
     Option.bind (lit_char (CHR ''-'') s3) (\<lambda>s4.
     Option.bind (digits_n 2 s4) (\<lambda>(d, s5).
     Option.bind (lit_char (CHR ''-'') s5) (\<lambda>s6.
       let r = takeWhile is_digit s6 in if r = [] then None else Some (y, m, d, r)))))))"

text \<open>\<^verbatim>\<open>sorted(current_dir.iterdir(), reverse=True)\<close>: paths of one directory
  compare as their names do; the sort is stable, also when reversed.\<close>

definition sorted_reverse :: "(string \<times> node) list \<Rightarrow> (string \<times> node) list" where
  "sorted_reverse xs = rev (sort_key fst (rev xs))"

definition reserved_names :: "string list" where
  "reserved_names = [''__pycache__'', ''.git'']"

text \<open>The body of the loop for one matched directory, once its metadata is
  loaded.\<close>

definition make_workflow ::
  "string \<Rightarrow> (string \<times> string \<times> string \<times> string) \<Rightarrow> (string \<times> node) list \<Rightarrow> metadata \<Rightarrow> workflow" where
  "make_workflow nm groups entries md =
     (case groups of (y, m, d, r) \<Rightarrow>
        \<lparr>name = nm, year = y, month = m, day = d, run_id = r,
         has_index = (child entries ''index.html'' \<noteq> None),
         job_count = length (filter (\<lambda>(n, c). is_dir c) entries),
         actor = md_actor md, release_version = md_release_version md,
         started_at = md_started_at md, duration_formatted = md_duration_formatted md\<rparr>)"

text \<open>The loop over the sorted entries. An exception of the loader ends the scan;
  what was printed before it stays printed.\<close>

fun scan_loop ::
  "(string \<Rightarrow> string + json) \<Rightarrow> (string \<Rightarrow> datetime option) \<Rightarrow> (string \<times> node) list \<Rightarrow>
   string list \<times> (py_error + workflow list)" where
  "scan_loop json_load fromisoformat [] = ([], Inr [])"
| "scan_loop json_load fromisoformat ((nm, File text) # rest) =
     scan_loop json_load fromisoformat rest"
| "scan_loop json_load fromisoformat ((nm, Dir entries) # rest) =
     (if nm \<notin> set reserved_names then
        (case re_match_workflow nm of
           None \<Rightarrow> scan_loop json_load fromisoformat rest
         | Some groups \<Rightarrow>
            (case load_workflow_metadata json_load fromisoformat nm entries of
               (out, Inl e) \<Rightarrow> (out, Inl e)
             | (out, Inr md) \<Rightarrow>
                (case scan_loop json_load fromisoformat rest of
                   (out', Inl e) \<Rightarrow> (out @ out', Inl e)
                 | (out', Inr workflows) \<Rightarrow>
                     (out @ out', Inr (make_workflow nm groups entries md # workflows)))))
      else scan_loop json_load fromisoformat rest)"

definition scan_workflow_directories ::
  "(string \<Rightarrow> string + json) \<Rightarrow> (string \<Rightarrow> datetime option) \<Rightarrow> (string \<times> node) list \<Rightarrow>
   string list \<times> (py_error + workflow list)" where
  "scan_workflow_directories json_load fromisoformat current_dir =
     scan_loop json_load fromisoformat (sorted_reverse current_dir)"

subsection \<open>Notions used to state the scanner's properties\<close>

text \<open>The naming pattern in words: four digits, two digits, two digits and at
  least one digit, separated by hyphens, at the start of the name.\<close>

definition has_workflow_prefix :: "string \<Rightarrow> bool" where
  "has_workflow_prefix s \<longleftrightarrow>
     (\<exists>y m d r rest.
        s = y @ ''-'' @ m @ ''-'' @ d @ ''-'' @ r @ rest \<and>
        length y = 4 \<and> length m = 2 \<and> length d = 2 \<and> r \<noteq> [] \<and>
        list_all is_digit (y @ m @ d @ r))"

text \<open>The selection of the loop as a predicate on an entry of the listing.\<close>

definition selected :: "string \<times> node \<Rightarrow> bool" where
  "selected e \<longleftrightarrow> is_dir (snd e) \<and> fst e \<notin> set reserved_names \<and> re_match_workflow (fst e) \<noteq> None"




text \<open>What a returned record was built from.\<close>

definition built_from ::
  "(string \<Rightarrow> string + json) \<Rightarrow> (string \<Rightarrow> datetime option) \<Rightarrow> workflow \<Rightarrow> string \<times> node \<Rightarrow> bool" where
  "built_from json_load fromisoformat w e \<longleftrightarrow>
     (\<exists>entries groups out md.
        e = (name w, Dir entries) \<and> re_match_workflow (name w) = Some groups \<and>
        load_workflow_metadata json_load fromisoformat (name w) entries = (out, Inr md) \<and>
        w = make_workflow (name w) groups entries md)"

text \<open>A sample working directory for the closed examples below.\<close>

definition sample_dir :: "(string \<times> node) list" where
  "sample_dir =
     [(''2024-01-02-5'',
         Dir [(''build'', Dir []), (''index.html'', File ''<html></html>''),
              (''workflow-metadata.json'', File ''not json''), (''test'', Dir [(''log.txt'', File '''')])]),
      (''README.md'', File ''results''),
      (''2024-01-01-9'', Dir [(''workflow-metadata.json'', File ''{}'')]),
      (''.git'', Dir [(''objects'', Dir [])]),
      (''notes'', Dir []),
      (''2024-01-02-3'', Dir [(''build'', Dir [])])]"


text \<open>The records the scanner builds from the sample directory.\<close>

definition sample_records :: "workflow list" where
  "sample_records =
     [\<lparr>name = ''2024-01-02-5'', year = ''2024'', month = ''01'', day = ''02'', run_id = ''5'',
       has_index = True, job_count = 2, actor = JNull, release_version = JNull,
       started_at = JNull, duration_formatted = JNull\<rparr>,
      \<lparr>name = ''2024-01-02-3'', year = ''2024'', month = ''01'', day = ''02'', run_id = ''3'',
       has_index = False, job_count = 1, actor = JNull, release_version = JNull,
       started_at = JNull, duration_formatted = JNull\<rparr>,
      \<lparr>name = ''2024-01-01-9'', year = ''2024'', month = ''01'', day = ''01'', run_id = ''9'',
       has_index = False, job_count = 0, actor = JNull, release_version = JNull,
       started_at = JNull, duration_formatted = JNull\<rparr>]"

section \<open>update_index_html\<close>

subsection \<open>Searching and substituting\<close>

text \<open>
  The patterns of the renderer are sequences of literal texts, digit classes and
  lazy \<^verbatim>\<open>.*?\<close> (with \<^verbatim>\<open>re.DOTALL\<close>) whose groups tile the match. A pattern
  is modelled by its matcher at the start of a text, which returns the groups
  and the text after the match. A lazy \<^verbatim>\<open>.*?\<close> followed by a literal stops at
  the first occurrence of the literal; where the remaining pattern then fails,
  no later occurrence can make it succeed, so no backtracking is needed.
\<close>

type_synonym matcher = "string \<Rightarrow> (string list \<times> string) option"

definition starts_with :: "string \<Rightarrow> string \<Rightarrow> bool" where
  "starts_with l s \<longleftrightarrow> take (length l) s = l"

text \<open>A literal at the start of the text: the text after it.\<close>

definition lit :: "string \<Rightarrow> string \<Rightarrow> string option" where
  "lit l s = (if starts_with l s then Some (drop (length l) s) else None)"

text \<open>The text before and the text after the first occurrence of a literal.\<close>

fun find_sub :: "string \<Rightarrow> string \<Rightarrow> (string \<times> string) option" where
  "find_sub l [] = (if l = [] then Some ([], []) else None)"
| "find_sub l (c # cs) =
     (if starts_with l (c # cs) then Some ([], drop (length l) (c # cs))
      else map_option (\<lambda>(a, b). (c # a, b)) (find_sub l cs))"

text \<open>\<^verbatim>\<open>re.search\<close>: the leftmost position at which the pattern matches, as the
  text before the match, the groups and the text after it.\<close>

fun search :: "matcher \<Rightarrow> string \<Rightarrow> (string \<times> string list \<times> string) option" where
  "search m [] = (case m [] of None \<Rightarrow> None | Some (gs, post) \<Rightarrow> Some ([], gs, post))"
| "search m (c # cs) =
     (case m (c # cs) of
        Some (gs, post) \<Rightarrow> Some ([], gs, post)
      | None \<Rightarrow> map_option (\<lambda>(pre, gs, post). (c # pre, gs, post)) (search m cs))"

text \<open>
  The loop of \<^verbatim>\<open>re.sub\<close> and of \<^verbatim>\<open>str.replace\<close>: every match, left to right,
  without overlap, is replaced by what \<open>expand\<close> makes of its groups. Every
  matcher below consumes at least one character, so that the guard holds.
\<close>

function sub_all :: "matcher \<Rightarrow> (string list \<Rightarrow> string) \<Rightarrow> string \<Rightarrow> string" where
  "sub_all m expand s =
     (case search m s of
        None \<Rightarrow> s
      | Some (pre, gs, post) \<Rightarrow>
          if length post < length s then pre @ expand gs @ sub_all m expand post
          else pre @ expand gs @ post)"
  by pat_completeness auto
termination
  by (relation "measure (\<lambda>(m, expand, s). length s)") auto

declare sub_all.simps [simp del]

text \<open>\<^verbatim>\<open>s.replace(old, new)\<close> for a non-empty \<open>old\<close>.\<close>

definition match_lit :: "string \<Rightarrow> matcher" where
  "match_lit old s = (if old \<noteq> [] then map_option (\<lambda>post. ([old], post)) (lit old s) else None)"

definition str_replace :: "string \<Rightarrow> string \<Rightarrow> string \<Rightarrow> string" where
  "str_replace old new s = sub_all (match_lit old) (\<lambda>gs. new) s"

subsection \<open>Replacement templates\<close>

text \<open>
  The replacement string of \<^verbatim>\<open>re.sub\<close> is parsed before any match is looked
  for: \<^verbatim>\<open>\1\<close> to \<^verbatim>\<open>\99\<close> and \<^verbatim>\<open>\g<n>\<close> are group references, \<^verbatim>\<open>\0\<close> and three
  octal digits are a character, \<^verbatim>\<open>\n\<close> and its like are control characters, a
  backslash before another ASCII letter or at the end is an error, and a
  backslash before anything else stays. \<open>None\<close> is the exception raised
  (\<^verbatim>\<open>re.error\<close>, or \<^verbatim>\<open>IndexError\<close> for an unknown group name).
\<close>

datatype tmpl_item = Lit string | Grp nat

definition backslash :: char where
  "backslash = CHR 0x5C"

definition is_octdigit :: "char \<Rightarrow> bool" where
  "is_octdigit c \<longleftrightarrow> c \<in> set ''01234567''"

definition is_ascii_letter :: "char \<Rightarrow> bool" where
  "is_ascii_letter c \<longleftrightarrow>
     c \<in> set ''abcdefghijklmnopqrstuvwxyzABCDEFGHIJKLMNOPQRSTUVWXYZ''"

definition nat_of_octal :: "string \<Rightarrow> nat" where
  "nat_of_octal s = foldl (\<lambda>acc c. 8 * acc + digit_val c) 0 s"

text \<open>\<^verbatim>\<open>chr(n)\<close> for \<open>n < 256\<close>, as the bytes the file will hold.\<close>

definition chr_bytes :: "nat \<Rightarrow> string" where
  "chr_bytes n =
     (if n < 128 then [char_of n] else [char_of (192 + n div 64), char_of (128 + n mod 64)])"

definition simple_escape :: "char \<Rightarrow> char option" where
  "simple_escape c =
     map_of [(CHR ''a'', CHR 0x07), (CHR ''b'', CHR 0x08), (CHR ''f'', CHR 0x0C),
             (CHR ''n'', CHR 0x0A), (CHR ''r'', CHR 0x0D), (CHR ''t'', CHR 0x09),
             (CHR ''v'', CHR 0x0B), (backslash, backslash)] c"

text \<open>One escape, given the character after the backslash and the text after
  that: the item and the text left to parse.\<close>

definition parse_escape :: "nat \<Rightarrow> char \<Rightarrow> string \<Rightarrow> (tmpl_item \<times> string) option" where
  "parse_escape groups c rest =
     (if c = CHR ''g'' then
        (case rest of
           [] \<Rightarrow> None
         | b # rest1 \<Rightarrow>
             if b \<noteq> CHR ''<'' then None
             else (case find_sub ''>'' rest1 of
                     None \<Rightarrow> None
                   | Some (nm, rest2) \<Rightarrow>
                       if nm \<noteq> [] \<and> list_all is_digit nm \<and> nat_of_digits nm \<le> groups
                       then Some (Grp (nat_of_digits nm), rest2)
                       else None))
      else if c = CHR ''0'' then
        (let ds = takeWhile is_octdigit (take 2 rest)
         in Some (Lit (chr_bytes (nat_of_octal ds mod 256)), drop (length ds) rest))
      else if is_digit c then
        (case rest of
           d # rest1 \<Rightarrow>
             if is_digit d then
               (case rest1 of
                  e # rest2 \<Rightarrow>
                    if is_octdigit c \<and> is_octdigit d \<and> is_octdigit e then
                      (if nat_of_octal [c, d, e] > 255 then None
                       else Some (Lit (chr_bytes (nat_of_octal [c, d, e])), rest2))
                    else if nat_of_digits [c, d] \<le> groups then Some (Grp (nat_of_digits [c, d]), rest1)
                    else None
                | [] \<Rightarrow>
                    if nat_of_digits [c, d] \<le> groups then Some (Grp (nat_of_digits [c, d]), rest1)
                    else None)
             else if nat_of_digits [c] \<le> groups then Some (Grp (nat_of_digits [c]), rest)
             else None
         | [] \<Rightarrow> if nat_of_digits [c] \<le> groups then Some (Grp (nat_of_digits [c]), rest) else None)
      else
        (case simple_escape c of
           Some x \<Rightarrow> Some (Lit [x], rest)
         | None \<Rightarrow> if is_ascii_letter c then None else Some (Lit [backslash, c], rest)))"

function parse_template :: "nat \<Rightarrow> string \<Rightarrow> tmpl_item list option" where
  "parse_template groups [] = Some []"
| "parse_template groups (c # rest) =
     (if c \<noteq> backslash then map_option (Cons (Lit [c])) (parse_template groups rest)
      else (case rest of
              [] \<Rightarrow> None
            | d # rest1 \<Rightarrow>
                (case parse_escape groups d rest1 of
                   None \<Rightarrow> None
                 | Some (item, rest2) \<Rightarrow> map_option (Cons item) (parse_template groups rest2))))"
  by pat_completeness auto
termination
proof (relation "measure (\<lambda>(groups, s). length s)")
  have fs: "length b \<le> length s" if "find_sub l s = Some (a, b)" for l s a b
    using that by (induction s arbitrary: a) (auto split: if_splits)
  have shorter: "length rest' \<le> length rest"
    if "parse_escape groups c rest = Some (item, rest')" for groups c rest item rest'
    using that unfolding parse_escape_def
    by (auto simp: Let_def split: if_splits list.splits option.splits dest!: fs)
  show "((groups, rest2), (groups, c # rest)) \<in> measure (\<lambda>(groups, s). length s)"
    if "rest = d # rest1" and "parse_escape groups d rest1 = Some x" and "(item, rest2) = x"
    for groups c rest d rest1 x item rest2
    using that shorter [of groups d rest1 item rest2] by simp
qed simp_all

text \<open>The expansion of a parsed template for the groups of one match; group 0
  is the whole match, which the groups tile.\<close>

definition expand_item :: "string list \<Rightarrow> tmpl_item \<Rightarrow> string" where
  "expand_item gs item =
     (case item of Lit s \<Rightarrow> s | Grp 0 \<Rightarrow> concat gs | Grp (Suc k) \<Rightarrow> gs ! k)"

definition expand :: "tmpl_item list \<Rightarrow> string list \<Rightarrow> string" where
  "expand items gs = concat (map (expand_item gs) items)"

text \<open>\<^verbatim>\<open>re.sub(pattern, repl, s)\<close> for a pattern with the given number of
  groups.\<close>

definition re_sub :: "matcher \<Rightarrow> nat \<Rightarrow> string \<Rightarrow> string \<Rightarrow> py_error + string" where
  "re_sub m groups repl s =
     (case parse_template groups repl of
        None \<Rightarrow> Inl ReError
      | Some items \<Rightarrow> Inr (sub_all m (expand items) s))"

subsection \<open>The rendered entries\<close>

text \<open>
  An f-string inserts \<^verbatim>\<open>str(v)\<close>. For a string that is the string itself; for
  the other values that a metadata field can hold it is given by the parameter
  \<open>py_str\<close>.
\<close>

definition fmt :: "(json \<Rightarrow> string) \<Rightarrow> json \<Rightarrow> string" where
  "fmt py_str v = (case v of JStr s \<Rightarrow> s | _ \<Rightarrow> py_str v)"

definition quote :: string where
  "quote = [CHR 0x27]"

definition newline :: string where
  "newline = [CHR 0x0A]"

definition js_field :: "(json \<Rightarrow> string) \<Rightarrow> string \<Rightarrow> json \<Rightarrow> string" where
  "js_field py_str key v =
     (if truthy v then '', '' @ key @ '': '' @ quote @ fmt py_str v @ quote
      else '', '' @ key @ '': null'')"

definition metadata_js :: "(json \<Rightarrow> string) \<Rightarrow> workflow \<Rightarrow> string" where
  "metadata_js py_str w =
     ''{'' @ ''name: '' @ quote @ name w @ quote
       @ '', hasIndex: '' @ (if has_index w then ''true'' else ''false'')
       @ '', jobCount: '' @ digits_of_nat (job_count w)
       @ js_field py_str ''actor'' (actor w)
       @ js_field py_str ''releaseVersion'' (release_version w)
       @ js_field py_str ''startedAt'' (started_at w)
       @ js_field py_str ''duration'' (duration_formatted w)
       @ ''}''"

fun join :: "string \<Rightarrow> string list \<Rightarrow> string" where
  "join sep [] = []"
| "join sep [x] = x"
| "join sep (x # y # ys) = x @ sep @ join sep (y # ys)"

definition workflows_js :: "(json \<Rightarrow> string) \<Rightarrow> workflow list \<Rightarrow> string" where
  "workflows_js py_str workflows =
     join ('','' @ newline @ replicate 16 (CHR '' '')) (map (metadata_js py_str) workflows)"

definition index_list_js :: "workflow list \<Rightarrow> string" where
  "index_list_js workflows =
     join '', '' (map (\<lambda>nm. quote @ nm @ quote) (map name (filter has_index workflows)))"

subsection \<open>The three patterns\<close>

definition old_decl :: string where
  "old_decl = ''const workflowDirectories = [''"

definition new_decl :: string where
  "new_decl = ''const workflowData = [''"

text \<open>\<^verbatim>\<open>(decl)(.*?)(\];)\<close> for a declaration \<open>decl\<close>.\<close>

definition match_array :: "string \<Rightarrow> matcher" where
  "match_array decl s =
     Option.bind (lit decl s) (\<lambda>s1.
     Option.bind (find_sub ''];'' s1) (\<lambda>(body, post).
       Some ([decl, body, ''];''], post)))"

definition check_head :: string where
  "check_head = ''function checkForIndex(workflowName) {''"

text \<open>\<^verbatim>\<open>(function checkForIndex\(workflowName\) \{.*?return )(.*?)(\;.*?\})\<close>\<close>

definition match_check_for_index :: matcher where
  "match_check_for_index s =
     Option.bind (lit check_head s) (\<lambda>s1.
     Option.bind (find_sub ''return '' s1) (\<lambda>(x, s2).
     Option.bind (find_sub '';'' s2) (\<lambda>(expr, s3).
     Option.bind (find_sub ''}'' s3) (\<lambda>(y, post).
       Some ([check_head @ x @ ''return '', expr, '';'' @ y @ ''}''], post)))))"

definition stamp_head :: string where
  "stamp_head = ''Last updated: ''"

definition stamp_tail :: string where
  "stamp_tail = '' | Auto-generated from directory scan''"

text \<open>\<^verbatim>\<open>(Last updated: \d{4}-\d{2}-\d{2} \d{2}:\d{2}:\d{2} \| Auto-generated from directory scan)\<close>\<close>

definition match_stamp :: matcher where
  "match_stamp s =
     Option.bind (lit stamp_head s) (\<lambda>s1.
     Option.bind (digits_n 4 s1) (\<lambda>(y, s2).
     Option.bind (lit_char (CHR ''-'') s2) (\<lambda>s3.
     Option.bind (digits_n 2 s3) (\<lambda>(mo, s4).
     Option.bind (lit_char (CHR ''-'') s4) (\<lambda>s5.
     Option.bind (digits_n 2 s5) (\<lambda>(d, s6).
     Option.bind (lit_char (CHR '' '') s6) (\<lambda>s7.
     Option.bind (digits_n 2 s7) (\<lambda>(h, s8).
     Option.bind (lit_char (CHR '':'') s8) (\<lambda>s9.
     Option.bind (digits_n 2 s9) (\<lambda>(mi, s10).
     Option.bind (lit_char (CHR '':'') s10) (\<lambda>s11.
     Option.bind (digits_n 2 s11) (\<lambda>(sec, s12).
     Option.bind (lit stamp_tail s12) (\<lambda>post.
       Some ([take (length s - length post) s], post))))))))))))))"

definition placeholder :: string where
  "placeholder = ''Generated on <span id=\"current-date\"></span>''"

subsection \<open>The steps of the renderer\<close>

text \<open>\<^verbatim>\<open>datetime.now().strftime('%Y-%m-%d %H:%M:%S')\<close>\<close>

definition strftime :: "datetime \<Rightarrow> string" where
  "strftime d =
     zfill 4 (digits_of_nat (nat (dt_year d))) @ ''-'' @ zfill 2 (digits_of_nat (nat (dt_month d)))
       @ ''-'' @ zfill 2 (digits_of_nat (nat (dt_day d))) @ '' ''
       @ zfill 2 (digits_of_nat (nat (dt_hour d))) @ '':'' @ zfill 2 (digits_of_nat (nat (dt_minute d)))
       @ '':'' @ zfill 2 (digits_of_nat (nat (dt_second d)))"

definition array_replacement :: "string \<Rightarrow> string" where
  "array_replacement js =
     [backslash, CHR ''1''] @ newline @ replicate 16 (CHR '' '') @ js @ newline
       @ replicate 12 (CHR '' '') @ [backslash, CHR ''3'']"

definition no_array_warning :: string where
  "no_array_warning = ''Warning: Could not find workflow data array to update''"

text \<open>Lines 170 to 185: the data array. The result pairs the lines printed with
  the new text or the exception.\<close>

definition splice_data_array :: "string \<Rightarrow> string \<Rightarrow> string list \<times> (py_error + string)" where
  "splice_data_array js content =
     (if search (match_array old_decl) content \<noteq> None then
        ([], bind_err (re_sub (match_array old_decl) 3 (array_replacement js) content)
               (\<lambda>updated. Inr (str_replace old_decl new_decl updated)))
      else if search (match_array new_decl) content \<noteq> None then
        ([], re_sub (match_array new_decl) 3 (array_replacement js) content)
      else ([no_array_warning], Inr content))"

definition check_replacement :: "string \<Rightarrow> string" where
  "check_replacement index_list =
     [backslash, CHR ''1''] @ ''['' @ index_list @ ''].includes(workflowName)''
       @ [backslash, CHR ''3'']"

text \<open>Lines 187 to 195: the lookup list of \<^verbatim>\<open>checkForIndex\<close>.\<close>

definition splice_check_for_index :: "string \<Rightarrow> string \<Rightarrow> py_error + string" where
  "splice_check_for_index index_list updated =
     re_sub match_check_for_index 3 (check_replacement index_list) updated"

definition stamp_line :: "string \<Rightarrow> string" where
  "stamp_line current_time = stamp_head @ current_time @ stamp_tail"

text \<open>Lines 197 to 208: the timestamp.\<close>

definition update_timestamp :: "string \<Rightarrow> string \<Rightarrow> py_error + string" where
  "update_timestamp current_time updated =
     (if search match_stamp updated \<noteq> None then
        re_sub match_stamp 1 (stamp_line current_time) updated
      else Inr (str_replace placeholder (stamp_line current_time) updated))"

definition not_found_error :: string where
  "not_found_error = ''Error: index.html not found in current directory''"

text \<open>
  The renderer, given \<^verbatim>\<open>index.html\<close> as the working directory holds it and the
  time of the run. The result is the lines printed, the value returned or the
  exception raised, and \<^verbatim>\<open>index.html\<close> afterwards.
\<close>

definition update_index_html ::
  "(json \<Rightarrow> string) \<Rightarrow> datetime \<Rightarrow> node option \<Rightarrow> workflow list \<Rightarrow>
   string list \<times> (py_error + bool) \<times> node option" where
  "update_index_html py_str now index_file workflows =
     (case index_file of
        None \<Rightarrow> ([not_found_error], Inr False, index_file)
      | Some (Dir listing) \<Rightarrow> ([], Inl IsADirectoryError, index_file)
      | Some (File content) \<Rightarrow>
          (case splice_data_array (workflows_js py_str workflows) content of
             (out, Inl e) \<Rightarrow> (out, Inl e, index_file)
           | (out, Inr updated1) \<Rightarrow>
               (case bind_err (splice_check_for_index (index_list_js workflows) updated1)
                       (update_timestamp (strftime now)) of
                  Inl e \<Rightarrow> (out, Inl e, index_file)
                | Inr updated \<Rightarrow> (out, Inr True, Some (File updated)))))"

subsection \<open>Sample input for the closed examples\<close>

definition sample_now :: datetime where
  "sample_now =
     \<lparr>dt_year = 2024, dt_month = 1, dt_day = 3, dt_hour = 9, dt_minute = 5, dt_second = 7,
      dt_microsecond = 0, dt_utcoffset = None\<rparr>"

definition sample_later :: datetime where
  "sample_later =
     \<lparr>dt_year = 2024, dt_month = 1, dt_day = 4, dt_hour = 18, dt_minute = 30, dt_second = 0,
      dt_microsecond = 0, dt_utcoffset = None\<rparr>"

definition sample_template :: string where
  "sample_template =
     ''const workflowDirectories = [old];'' @ newline
       @ ''function checkForIndex(workflowName) { return [].includes(workflowName); }'' @ newline
       @ ''Generated on <span id=\"current-date\"></span>''"

definition sample_py_str :: "json \<Rightarrow> string" where
  "sample_py_str v =
     (case v of JBool True \<Rightarrow> ''True'' | JBool False \<Rightarrow> ''False''
      | JInt i \<Rightarrow> (if i < 0 then ''-'' @ digits_of_nat (nat (- i)) else digits_of_nat (nat i))
      | JNull \<Rightarrow> ''None'' | _ \<Rightarrow> ''?'')"


subsection \<open>Notions used to state the renderer's properties\<close>

text \<open>The array body and the lookup expression that the renderer writes.\<close>

definition array_body :: "string \<Rightarrow> string" where
  "array_body js = newline @ replicate 16 (CHR '' '') @ js @ newline @ replicate 12 (CHR '' '')"

definition lookup_expr :: "string \<Rightarrow> string" where
  "lookup_expr index_list = ''['' @ index_list @ ''].includes(workflowName)''"

text \<open>The groups of every match, left to right, as \<^verbatim>\<open>re.findall\<close> gives them.\<close>

function findall :: "matcher \<Rightarrow> string \<Rightarrow> string list list" where
  "findall m s =
     (case search m s of
        None \<Rightarrow> []
      | Some (pre, gs, post) \<Rightarrow>
          if length post < length s then gs # findall m post else [gs])"
  by pat_completeness auto
termination
  by (relation "measure (\<lambda>(m, s). length s)") auto

declare findall.simps [simp del]

text \<open>A matcher whose matches are never empty and whose groups tile the match.\<close>

definition consuming :: "matcher \<Rightarrow> bool" where
  "consuming m \<longleftrightarrow> (\<forall>s gs post. m s = Some (gs, post) \<longrightarrow> length post < length s \<and> s = concat gs @ post)"

text \<open>The text of a file, and the bodies of the data arrays of a text.\<close>

definition file_text :: "node option \<Rightarrow> string" where
  "file_text f = (case f of Some (File t) \<Rightarrow> t | _ \<Rightarrow> [])"

definition array_bodies :: "string \<Rightarrow> string list" where
  "array_bodies s = map (\<lambda>gs. gs ! 1) (findall (match_array new_decl) s)"

definition lookup_exprs :: "string \<Rightarrow> string list" where
  "lookup_exprs s = map (\<lambda>gs. gs ! 1) (findall match_check_for_index s)"

text \<open>The sample template after a first run, and a template that holds an array
  under each convention, before and after a first run.\<close>

definition sample_first_run :: string where
  "sample_first_run =
     file_text (snd (snd (update_index_html sample_py_str sample_now
                            (Some (File sample_template)) sample_records)))"

definition both_conventions_template :: string where
  "both_conventions_template =
     ''const workflowDirectories = [old];'' @ newline @ ''const workflowData = [stale];''"

definition both_conventions_first_run :: string where
  "both_conventions_first_run =
     file_text (snd (snd (update_index_html sample_py_str sample_now
                            (Some (File both_conventions_template)) sample_records)))"

definition both_conventions_second_run :: string where
  "both_conventions_second_run =
     file_text (snd (snd (update_index_html sample_py_str sample_later
                            (Some (File both_conventions_first_run)) sample_records)))"

section \<open>Properties\<close>

subsection \<open>Decimal numerals\<close>






lemma nat_of_digits_Nil [simp]: "nat_of_digits [] = 0"
  by (simp add: nat_of_digits_def)











lemma length_digits_of_nat_pos: "0 < length (digits_of_nat n)"
  by (subst digits_of_nat.simps) simp





subsection \<open>The loader\<close>

lemma bind_err_Inr [simp]: "bind_err (Inr x) f = f x"
  by (simp add: bind_err_def)

lemma bind_err_Inl [simp]: "bind_err (Inl e) f = Inl e"
  by (simp add: bind_err_def)





lemma unsentinel_simps [simp]:
  "unsentinel (JStr ''Unknown'') = JNull"
  "unsentinel v \<noteq> JStr ''Unknown''"
  by (simp_all add: unsentinel_def)






subsection \<open>The duration\<close>












subsection \<open>The scanner\<close>

lemma digits_n_Some:
  "digits_n n s = Some (a, b) \<longleftrightarrow> n \<le> length s \<and> list_all is_digit a \<and> a = take n s \<and> b = drop n s"
  by (auto simp: digits_n_def)

lemma lit_char_Some: "lit_char c s = Some t \<longleftrightarrow> s = c # t"
  by (cases s) (auto simp: lit_char_def)

lemma re_match_workflow_Some:
  "re_match_workflow s = Some (y, m, d, r) \<longleftrightarrow>
     (\<exists>rest. s = y @ ''-'' @ m @ ''-'' @ d @ ''-'' @ rest \<and> length y = 4 \<and> length m = 2 \<and> length d = 2 \<and>
        list_all is_digit (y @ m @ d) \<and> r = takeWhile is_digit rest \<and> r \<noteq> [])"
  (is "?L \<longleftrightarrow> ?R")
proof
  assume ?L
  then obtain s1 s2 s3 s4 s5 s6 where
    1: "digits_n 4 s = Some (y, s1)" and 2: "lit_char (CHR ''-'') s1 = Some s2"
    and 3: "digits_n 2 s2 = Some (m, s3)" and 4: "lit_char (CHR ''-'') s3 = Some s4"
    and 5: "digits_n 2 s4 = Some (d, s5)" and 6: "lit_char (CHR ''-'') s5 = Some s6"
    and 7: "r = takeWhile is_digit s6" "r \<noteq> []"
    unfolding re_match_workflow_def
    by (auto simp: Option.bind_eq_Some_conv Let_def split: if_splits)
  from 1 have a: "s = y @ s1" "length y = 4" "list_all is_digit y"
    by (auto simp: digits_n_Some)
  from 3 have b: "s2 = m @ s3" "length m = 2" "list_all is_digit m"
    by (auto simp: digits_n_Some)
  from 5 have c: "s4 = d @ s5" "length d = 2" "list_all is_digit d"
    by (auto simp: digits_n_Some)
  from 2 4 6 have e: "s1 = CHR ''-'' # s2" "s3 = CHR ''-'' # s4" "s5 = CHR ''-'' # s6"
    by (simp_all add: lit_char_Some)
  show ?R
    using a b c e 7 by (intro exI [of _ s6]) simp
next
  assume ?R
  then obtain rest where s: "s = y @ ''-'' @ m @ ''-'' @ d @ ''-'' @ rest"
    and l: "length y = 4" "length m = 2" "length d = 2"
    and dg: "list_all is_digit y" "list_all is_digit m" "list_all is_digit d"
    and r: "r = takeWhile is_digit rest" "r \<noteq> []"
    by auto
  have 1: "digits_n 4 s = Some (y, ''-'' @ m @ ''-'' @ d @ ''-'' @ rest)"
    using s l dg by (simp add: digits_n_def)
  have 3: "digits_n 2 (m @ ''-'' @ d @ ''-'' @ rest) = Some (m, ''-'' @ d @ ''-'' @ rest)"
    using l dg by (simp add: digits_n_def)
  have 5: "digits_n 2 (d @ ''-'' @ rest) = Some (d, ''-'' @ rest)"
    using l dg by (simp add: digits_n_def)
  show ?L
    unfolding re_match_workflow_def using 1 3 5 r
    by (simp add: lit_char_def Let_def)
qed

lemma re_match_workflow_iff_prefix:
  "re_match_workflow s \<noteq> None \<longleftrightarrow> has_workflow_prefix s"
proof
  assume "re_match_workflow s \<noteq> None"
  then obtain y m d r where "re_match_workflow s = Some (y, m, d, r)" by auto
  then obtain rest where s: "s = y @ ''-'' @ m @ ''-'' @ d @ ''-'' @ rest"
    and l: "length y = 4" "length m = 2" "length d = 2"
    and dg: "list_all is_digit (y @ m @ d)"
    and r: "r = takeWhile is_digit rest" "r \<noteq> []"
    unfolding re_match_workflow_Some by blast
  have "rest = r @ dropWhile is_digit rest" using r by simp
  moreover have "list_all is_digit r" using r by (simp add: list_all_iff) (meson set_takeWhileD)
  ultimately show "has_workflow_prefix s"
    unfolding has_workflow_prefix_def using s l dg r(2)
    by (intro exI [of _ y] exI [of _ m] exI [of _ d] exI [of _ r] exI [of _ "dropWhile is_digit rest"]) simp
next
  assume "has_workflow_prefix s"
  then obtain y m d r rest where s: "s = y @ ''-'' @ m @ ''-'' @ d @ ''-'' @ r @ rest"
    and l: "length y = 4" "length m = 2" "length d = 2" "r \<noteq> []"
    and dg: "list_all is_digit (y @ m @ d @ r)"
    unfolding has_workflow_prefix_def by blast
  from l(4) dg have "takeWhile is_digit (r @ rest) \<noteq> []"
    by (cases r) auto
  then have "re_match_workflow s = Some (y, m, d, takeWhile is_digit (r @ rest))"
    unfolding re_match_workflow_Some using s l dg by (intro exI [of _ "r @ rest"]) simp
  then show "re_match_workflow s \<noteq> None" by simp
qed

lemma reserved_not_matched:
  "re_match_workflow ''__pycache__'' = None" "re_match_workflow ''.git'' = None"
  by (simp_all add: re_match_workflow_def digits_n_def is_digit_def)

lemma name_make_workflow [simp]: "name (make_workflow nm groups entries md) = nm"
  by (simp add: make_workflow_def split: prod.splits)

lemma selected_simps [simp]:
  "selected (nm, File t) = False"
  "selected (nm, Dir entries) \<longleftrightarrow> nm \<notin> set reserved_names \<and> re_match_workflow nm \<noteq> None"
  by (simp_all add: selected_def)

lemma scan_loop_Inr:
  "scan_loop jl fi es = (out, Inr ws) \<Longrightarrow> list_all2 (built_from jl fi) ws (filter selected es)"
proof (induction jl fi es arbitrary: out ws rule: scan_loop.induct)
  case (1 jl fi)
  then show ?case by simp
next
  case (2 jl fi nm t rest)
  then show ?case by simp
next
  case (3 jl fi nm entries rest)
  show ?case
  proof (cases "nm \<in> set reserved_names")
    case True
    with 3 show ?thesis by simp
  next
    case nr: False
    show ?thesis
    proof (cases "re_match_workflow nm")
      case None
      with nr 3 show ?thesis by simp
    next
      case (Some groups)
      from nr Some "3.prems" obtain o1 md o2 ws' where
        l: "load_workflow_metadata jl fi nm entries = (o1, Inr md)"
        and r: "scan_loop jl fi rest = (o2, Inr ws')"
        and w: "ws = make_workflow nm groups entries md # ws'"
        by (auto split: prod.splits sum.splits)
      have "list_all2 (built_from jl fi) ws' (filter selected rest)"
        using "3.IH"(2) nr Some l r by simp
      moreover have "built_from jl fi (make_workflow nm groups entries md) (nm, Dir entries)"
        unfolding built_from_def using Some l by auto
      ultimately show ?thesis using nr Some w by simp
    qed
  qed
qed



lemma set_sorted_reverse [simp]: "set (sorted_reverse xs) = set xs"
  by (simp add: sorted_reverse_def)

lemma job_count_make_workflow [simp]:
  "job_count (make_workflow nm groups entries md) = length (filter (\<lambda>(n, c). is_dir c) entries)"
  by (simp add: make_workflow_def split: prod.splits)


lemma scan_sample:
  "scan_workflow_directories sample_json_load (\<lambda>s. None) sample_dir =
     ([''Warning: Could not parse metadata for 2024-01-02-5: Expecting value: line 1 column 1 (char 0)''],
      Inr sample_records)"
  by code_simp

lemma count_child_directories:
  assumes "distinct (map fst entries)"
  shows "length (filter (\<lambda>(n, c). is_dir c) entries) = card {n. \<exists>listing. (n, Dir listing) \<in> set entries}"
proof -
  let ?ds = "filter (\<lambda>(n, c). is_dir c) entries"
  have "distinct (map fst ?ds)"
    using assms by (simp add: distinct_map_filter)
  then have "length ?ds = card (set (map fst ?ds))"
    by (metis distinct_card length_map)
  also have "set (map fst ?ds) = {n. \<exists>listing. (n, Dir listing) \<in> set entries}"
  proof (intro set_eqI iffI)
    fix n assume "n \<in> set (map fst ?ds)"
    then obtain c where "(n, c) \<in> set entries" "is_dir c" by auto
    then show "n \<in> {n. \<exists>listing. (n, Dir listing) \<in> set entries}" by (cases c) auto
  next
    fix n assume "n \<in> {n. \<exists>listing. (n, Dir listing) \<in> set entries}"
    then show "n \<in> set (map fst ?ds)" by force
  qed
  finally show ?thesis .
qed

lemma scan_records:
  assumes "scan_workflow_directories jl fi current_dir = (out, Inr workflows)"
  shows "list_all2 (built_from jl fi) workflows (filter selected (sorted_reverse current_dir))"
  using assms unfolding scan_workflow_directories_def by (rule scan_loop_Inr)

lemma list_all2_right_ex:
  "list_all2 P xs ys \<Longrightarrow> y \<in> set ys \<Longrightarrow> \<exists>x \<in> set xs. P x y"
  by (metis in_set_conv_nth list_all2_conv_all_nth)

lemma list_all2_left_ex:
  "list_all2 P xs ys \<Longrightarrow> x \<in> set xs \<Longrightarrow> \<exists>y \<in> set ys. P x y"
  by (metis in_set_conv_nth list_all2_conv_all_nth)








text \<open>
  C8. When the scanner returns, a matched workflow directory has a record, and
  the \<open>job_count\<close> of its record is the number of its direct children that are
  directories; files are not counted.
\<close>

theorem job_count_counts_subdirectories:
  assumes "scan_workflow_directories json_load fromisoformat current_dir = (out, Inr workflows)"
    and "(nm, Dir entries) \<in> set current_dir"
    and "has_workflow_prefix nm" and "nm \<noteq> ''__pycache__''" and "nm \<noteq> ''.git''"
    and "distinct (map fst current_dir)" and "distinct (map fst entries)"
  shows "(\<exists>w \<in> set workflows. name w = nm) \<and>
         (\<forall>w \<in> set workflows. name w = nm \<longrightarrow>
            job_count w = card {n. \<exists>listing. (n, Dir listing) \<in> set entries})"
proof -
  note recs = scan_records [OF assms(1)]
  have "re_match_workflow nm \<noteq> None"
    using assms(3) by (simp only: re_match_workflow_iff_prefix)
  then have sel: "selected (nm, Dir entries)"
    using assms(4,5) by (simp add: reserved_names_def)
  then have "(nm, Dir entries) \<in> set (filter selected (sorted_reverse current_dir))"
    using assms(2) by simp
  from list_all2_right_ex [OF recs this] have ex: "\<exists>w \<in> set workflows. name w = nm"
    by (auto simp: built_from_def)
  have "job_count w = card {n. \<exists>listing. (n, Dir listing) \<in> set entries}"
    if w: "w \<in> set workflows" and n: "name w = nm" for w
  proof -
    from list_all2_left_ex [OF recs w] obtain e where
      e: "e \<in> set current_dir" and b: "built_from json_load fromisoformat w e" by auto
    from b obtain entries' groups md where e': "e = (nm, Dir entries')"
      and w': "w = make_workflow (name w) groups entries' md"
      unfolding built_from_def n by auto
    have "entries' = entries"
      using assms(2,6) e e' by (meson eq_key_imp_eq_value node.inject(2))
    then have "job_count w = length (filter (\<lambda>(n, c). is_dir c) entries)"
      using w' by (metis job_count_make_workflow)
    then show ?thesis
      using count_child_directories [OF assms(7)] by simp
  qed
  with ex show ?thesis by blast
qed

theorem job_count_counts_subdirectories_witness:
  "(\<exists>w \<in> set (case snd (scan_workflow_directories sample_json_load (\<lambda>s. None) sample_dir) of Inr ws \<Rightarrow> ws | Inl e \<Rightarrow> []).
      name w = ''2024-01-02-5'' \<and> job_count w = 2)
   \<and> card {n. \<exists>listing. (n, Dir listing) \<in> set
         [(''build'', Dir []), (''index.html'', File ''<html></html>''),
          (''workflow-metadata.json'', File ''not json''), (''test'', Dir [(''log.txt'', File '''')])]} = 2"
proof -
  let ?entries = "[(''build'', Dir []), (''index.html'', File ''<html></html>''),
              (''workflow-metadata.json'', File ''not json''), (''test'', Dir [(''log.txt'', File '''')])]"
  have 1: "(''2024-01-02-5'', Dir ?entries) \<in> set sample_dir"
    by (simp add: sample_dir_def)
  have 2: "has_workflow_prefix ''2024-01-02-5''"
    unfolding re_match_workflow_iff_prefix [symmetric]
    by (simp add: re_match_workflow_def digits_n_def lit_char_def is_digit_def)
  have 3: "distinct (map fst sample_dir)" by (simp add: sample_dir_def)
  have 4: "distinct (map fst ?entries)" by simp
  show ?thesis
    using job_count_counts_subdirectories [OF scan_sample 1 2 _ _ 3 4]
    by (simp add: scan_sample sample_records_def)
qed






subsection \<open>Order of names and order of dates\<close>











subsection \<open>Replacement templates\<close>



lemma expand_plain [simp]: "expand (map (\<lambda>c. Lit [c]) t) gs = t"
  by (induction t) (simp_all add: expand_def expand_item_def)

lemma expand_append [simp]: "expand (xs @ ys) gs = expand xs gs @ expand ys gs"
  by (simp add: expand_def)

lemma expand_Cons [simp]: "expand (x # xs) gs = expand_item gs x @ expand xs gs"
  by (simp add: expand_def)















subsection \<open>The renderer\<close>

lemma sub_all_no_match: "search m s = None \<Longrightarrow> sub_all m ex s = s"
  by (subst sub_all.simps) simp











subsection \<open>Searching and substituting\<close>

lemma starts_with_append [simp]: "starts_with l (l @ t)"
  by (simp add: starts_with_def)

lemma starts_withD: "starts_with l s \<Longrightarrow> s = l @ drop (length l) s"
  unfolding starts_with_def by (metis append_take_drop_id)

lemma starts_with_Nil [simp]: "starts_with [] s"
  by (simp add: starts_with_def)

lemma lit_Some: "lit l s = Some t \<longleftrightarrow> s = l @ t"
  unfolding lit_def using starts_withD [of l s] by auto

lemma find_sub_Some:
  "find_sub l s = Some (a, b) \<Longrightarrow> s = a @ l @ b"
proof (induction s arbitrary: a)
  case Nil
  then show ?case by (simp split: if_splits)
next
  case (Cons c cs)
  show ?case
  proof (cases "starts_with l (c # cs)")
    case True
    with Cons.prems have "a = []" "b = drop (length l) (c # cs)" by simp_all
    with starts_withD [OF True] show ?thesis by simp
  next
    case False
    with Cons.prems obtain a' where "find_sub l cs = Some (a', b)" "a = c # a'" by auto
    with Cons.IH show ?thesis by simp
  qed
qed

lemma find_sub_None:
  "find_sub l s = None \<Longrightarrow> i \<le> length s \<Longrightarrow> \<not> starts_with l (drop i s)"
proof (induction s arbitrary: i)
  case Nil
  then show ?case by (auto simp: starts_with_def split: if_splits)
next
  case (Cons c cs)
  from Cons.prems(1) have nc: "\<not> starts_with l (c # cs)" and r: "find_sub l cs = None"
    by (auto split: if_splits)
  show ?case
  proof (cases i)
    case 0
    with nc show ?thesis by simp
  next
    case (Suc j)
    with Cons.prems(2) Cons.IH [OF r, of j] show ?thesis by simp
  qed
qed

lemma find_sub_prefix: "find_sub l (l @ b) = Some ([], b)"
proof (cases "l @ b")
  case Nil
  then show ?thesis by simp
next
  case (Cons c cs)
  have "starts_with l (c # cs)" using starts_with_append [of l b] Cons by simp
  moreover have "drop (length l) (c # cs) = b" using Cons by (metis append_eq_conv_conj)
  ultimately show ?thesis using Cons by simp
qed

lemma find_sub_here:
  assumes "\<And>i. i < length a \<Longrightarrow> \<not> starts_with l (drop i (a @ l @ b))"
  shows "find_sub l (a @ l @ b) = Some (a, b)"
  using assms
proof (induction a)
  case Nil
  show ?case by (simp add: find_sub_prefix)
next
  case (Cons c a)
  from Cons.prems [of 0] have nc: "\<not> starts_with l (c # a @ l @ b)" by simp
  have "find_sub l (a @ l @ b) = Some (a, b)"
  proof (rule Cons.IH)
    fix i assume "i < length a"
    then show "\<not> starts_with l (drop i (a @ l @ b))"
      using Cons.prems [of "Suc i"] by simp
  qed
  with nc show ?case by simp
qed

lemma find_sub_exists: "find_sub l (a @ l @ b) \<noteq> None"
proof (induction a)
  case Nil
  show ?case by (simp add: find_sub_prefix)
next
  case (Cons c a)
  then show ?case by auto
qed

lemma search_SomeD:
  assumes "search m s = Some (pre, gs, post)"
  shows "\<exists>suf. s = pre @ suf \<and> m suf = Some (gs, post) \<and> (\<forall>i < length pre. m (drop i s) = None)"
  using assms
proof (induction s arbitrary: pre)
  case Nil
  then show ?case by (auto split: option.splits)
next
  case (Cons c cs)
  show ?case
  proof (cases "m (c # cs)")
    case (Some r)
    with Cons.prems show ?thesis by (cases r) auto
  next
    case None
    with Cons.prems obtain pre' where p: "search m cs = Some (pre', gs, post)" "pre = c # pre'"
      by auto
    from Cons.IH [OF p(1)] obtain suf where s: "cs = pre' @ suf" "m suf = Some (gs, post)"
      "\<forall>i < length pre'. m (drop i cs) = None" by blast
    have "m (drop i (c # cs)) = None" if "i < length pre" for i
      using that None s(3) p(2) by (cases i) auto
    with s p show ?thesis by auto
  qed
qed

lemma search_here:
  assumes "m suf = Some (gs, post)" and "\<And>i. i < length pre \<Longrightarrow> m (drop i (pre @ suf)) = None"
  shows "search m (pre @ suf) = Some (pre, gs, post)"
  using assms(2)
proof (induction pre)
  case Nil
  show ?case using assms(1) by (cases suf) simp_all
next
  case (Cons c pre)
  from Cons.prems [of 0] have n: "m (c # pre @ suf) = None" by simp
  have "search m (pre @ suf) = Some (pre, gs, post)"
  proof (rule Cons.IH)
    fix i assume "i < length pre"
    then show "m (drop i (pre @ suf)) = None" using Cons.prems [of "Suc i"] by simp
  qed
  with n show ?case by simp
qed

lemma search_skip:
  assumes "\<And>i. i < length P \<Longrightarrow> m (drop i (P @ R)) = None"
  shows "search m (P @ R) = map_option (\<lambda>(pre, gs, post). (P @ pre, gs, post)) (search m R)"
  using assms
proof (induction P)
  case Nil
  show ?case by (simp add: option.map_ident case_prod_unfold)
next
  case (Cons c P)
  from Cons.prems [of 0] have n: "m (c # P @ R) = None" by simp
  have "search m (P @ R) = map_option (\<lambda>(pre, gs, post). (P @ pre, gs, post)) (search m R)"
  proof (rule Cons.IH)
    fix i assume "i < length P"
    then show "m (drop i (P @ R)) = None" using Cons.prems [of "Suc i"] by simp
  qed
  with n show ?case by (simp add: option.map_comp comp_def case_prod_unfold)
qed

lemma consumingD:
  assumes "consuming m" "m s = Some (gs, post)"
  shows "length post < length s" "s = concat gs @ post"
  using assms unfolding consuming_def by blast+

lemma search_consuming:
  assumes "consuming m" "search m s = Some (pre, gs, post)"
  shows "length post < length s" "s = pre @ concat gs @ post"
proof -
  from search_SomeD [OF assms(2)] obtain suf where "s = pre @ suf" "m suf = Some (gs, post)" by blast
  with consumingD [OF assms(1), of suf gs post] show "length post < length s" "s = pre @ concat gs @ post"
    by auto
qed

lemma sub_all_match:
  assumes "consuming m" "search m s = Some (pre, gs, post)"
  shows "sub_all m ex s = pre @ ex gs @ sub_all m ex post"
  using search_consuming(1) [OF assms] assms(2) by (subst sub_all.simps) simp

lemma findall_match:
  assumes "consuming m" "search m s = Some (pre, gs, post)"
  shows "findall m s = gs # findall m post"
  using search_consuming(1) [OF assms] assms(2) by (subst findall.simps) simp

lemma findall_no_match: "search m s = None \<Longrightarrow> findall m s = []"
  by (subst findall.simps) simp

lemma sub_all_skip:
  assumes "consuming m" and "\<And>i. i < length P \<Longrightarrow> m (drop i (P @ R)) = None"
  shows "sub_all m ex (P @ R) = P @ sub_all m ex R"
proof (cases "search m R")
  case None
  have sk: "search m (P @ R) = map_option (\<lambda>(pre, gs, post). (P @ pre, gs, post)) (search m R)"
    by (rule search_skip) (rule assms(2))
  from None have "search m (P @ R) = None" unfolding sk by simp
  with None show ?thesis by (simp add: sub_all_no_match)
next
  case (Some r)
  obtain pre gs post where r: "r = (pre, gs, post)" by (cases r) auto
  have sk: "search m (P @ R) = map_option (\<lambda>(pre, gs, post). (P @ pre, gs, post)) (search m R)"
    by (rule search_skip) (rule assms(2))
  from Some r have "search m (P @ R) = Some (P @ pre, gs, post)"
    unfolding sk by simp
  then show ?thesis
    using Some r by (simp add: sub_all_match [OF assms(1)])
qed

lemma sub_all_fixed:
  assumes "consuming m" and "\<forall>gs \<in> set (findall m s). ex gs = concat gs"
  shows "sub_all m ex s = s"
  using assms(2)
proof (induction s rule: length_induct)
  case (1 s)
  show ?case
  proof (cases "search m s")
    case None
    then show ?thesis by (simp add: sub_all_no_match)
  next
    case (Some r)
    obtain pre gs post where r: "r = (pre, gs, post)" by (cases r) auto
    note s = Some [unfolded r]
    note c = search_consuming [OF assms(1) s]
    from "1.prems" have "ex gs = concat gs" and rest: "\<forall>gs \<in> set (findall m post). ex gs = concat gs"
      by (simp_all add: findall_match [OF assms(1) s])
    moreover have "sub_all m ex post = post"
      using "1.IH" c(1) rest by blast
    moreover have "sub_all m ex s = pre @ ex gs @ sub_all m ex post"
      by (rule sub_all_match [OF assms(1) s])
    ultimately have "sub_all m ex s = pre @ concat gs @ post" by simp
    with c(2) show ?thesis by simp
  qed
qed


subsection \<open>The matchers of the renderer\<close>

lemma match_array_Some:
  "match_array d s = Some (gs, post) \<longleftrightarrow>
     (\<exists>body. gs = [d, body, ''];''] \<and> s = d @ body @ ''];'' @ post \<and>
        find_sub ''];'' (body @ ''];'' @ post) = Some (body, post))"
  (is "?L \<longleftrightarrow> ?R")
proof
  assume ?L
  then obtain s1 body where 1: "lit d s = Some s1" and 2: "find_sub ''];'' s1 = Some (body, post)"
    and g: "gs = [d, body, ''];'']"
    unfolding match_array_def by (auto simp: Option.bind_eq_Some_conv)
  from 1 have "s = d @ s1" by (simp add: lit_Some)
  moreover from find_sub_Some [OF 2] have "s1 = body @ ''];'' @ post" .
  ultimately show ?R using 2 g by auto
next
  assume ?R
  then obtain body where g: "gs = [d, body, ''];'']" and s: "s = d @ body @ ''];'' @ post"
    and f: "find_sub ''];'' (body @ ''];'' @ post) = Some (body, post)" by blast
  have "lit d s = Some (body @ ''];'' @ post)" unfolding s lit_Some ..
  with f g show ?L unfolding match_array_def by simp
qed

lemma match_check_Some:
  "match_check_for_index s = Some (gs, post) \<Longrightarrow>
     \<exists>g1 expr g3. gs = [g1, expr, g3] \<and> s = g1 @ expr @ g3 @ post \<and> g1 \<noteq> []"
  unfolding match_check_for_index_def
  by (auto simp: Option.bind_eq_Some_conv lit_Some check_head_def dest!: find_sub_Some)

lemma match_lit_Some:
  "match_lit old s = Some (gs, post) \<longleftrightarrow> old \<noteq> [] \<and> gs = [old] \<and> s = old @ post"
  unfolding match_lit_def by (auto simp: lit_Some)

lemma consuming_match_array: "consuming (match_array d)"
  unfolding consuming_def by (auto simp: match_array_Some)

lemma consuming_match_check: "consuming match_check_for_index"
  unfolding consuming_def by (auto dest!: match_check_Some)

lemma consuming_match_lit: "consuming (match_lit old)"
  unfolding consuming_def by (auto simp: match_lit_Some)

lemma match_stamp_Some:
  assumes "match_stamp s = Some (gs, post)"
  shows "\<exists>t. s = stamp_head @ t \<and> length post < length t \<and> gs = [take (length s - length post) s]
    \<and> (\<exists>u. t = u @ post)"
proof -
  have dn: "a = take n x \<and> b = drop n x \<and> n \<le> length x" if "digits_n n x = Some (a, b)" for n x a b
    using that by (simp add: digits_n_Some)
  from assms obtain s1 y s2 s3 mo s4 s5 d s6 s7 h s8 s9 mi s10 s11 sec s12 where
    1: "lit stamp_head s = Some s1" and 2: "digits_n 4 s1 = Some (y, s2)"
    and 3: "lit_char (CHR ''-'') s2 = Some s3" and 4: "digits_n 2 s3 = Some (mo, s4)"
    and 5: "lit_char (CHR ''-'') s4 = Some s5" and 6: "digits_n 2 s5 = Some (d, s6)"
    and 7: "lit_char (CHR '' '') s6 = Some s7" and 8: "digits_n 2 s7 = Some (h, s8)"
    and 9: "lit_char (CHR '':'') s8 = Some s9" and 10: "digits_n 2 s9 = Some (mi, s10)"
    and 11: "lit_char (CHR '':'') s10 = Some s11" and 12: "digits_n 2 s11 = Some (sec, s12)"
    and 13: "lit stamp_tail s12 = Some post"
    and g: "gs = [take (length s - length post) s]"
    unfolding match_stamp_def by (auto simp: Option.bind_eq_Some_conv)
  have e1: "s = stamp_head @ s1" using 1 by (simp add: lit_Some)
  have e2: "s1 = y @ s2" using dn [OF 2] by simp
  have e3: "s2 = CHR ''-'' # s3" using 3 by (simp add: lit_char_Some)
  have e4: "s3 = mo @ s4" using dn [OF 4] by simp
  have e5: "s4 = CHR ''-'' # s5" using 5 by (simp add: lit_char_Some)
  have e6: "s5 = d @ s6" using dn [OF 6] by simp
  have e7: "s6 = CHR '' '' # s7" using 7 by (simp add: lit_char_Some)
  have e8: "s7 = h @ s8" using dn [OF 8] by simp
  have e9: "s8 = CHR '':'' # s9" using 9 by (simp add: lit_char_Some)
  have e10: "s9 = mi @ s10" using dn [OF 10] by simp
  have e11: "s10 = CHR '':'' # s11" using 11 by (simp add: lit_char_Some)
  have e12: "s11 = sec @ s12" using dn [OF 12] by simp
  have e13: "s12 = stamp_tail @ post" using 13 by (simp add: lit_Some)
  have t: "s1 = (y @ CHR ''-'' # mo @ CHR ''-'' # d @ CHR '' '' # h @ CHR '':'' # mi @ CHR '':'' # sec @ stamp_tail) @ post"
    by (simp add: e2 e3 e4 e5 e6 e7 e8 e9 e10 e11 e12 e13)
  have "length post < length s1"
    by (subst t) simp
  with e1 t g show ?thesis by blast
qed

lemma consuming_match_stamp: "consuming match_stamp"
  unfolding consuming_def
proof (intro allI impI)
  fix s gs post assume "match_stamp s = Some (gs, post)"
  from match_stamp_Some [OF this] obtain t u where
    s: "s = stamp_head @ t" and l: "length post < length t"
    and g: "gs = [take (length s - length post) s]" and t: "t = u @ post" by blast
  have "take (length s - length post) s = stamp_head @ u"
    unfolding s t by simp
  with s t l g show "length post < length s \<and> s = concat gs @ post" by simp
qed

text \<open>A matcher that starts with a literal fails where the literal does not stand.\<close>

lemma match_array_head: "\<not> starts_with d s \<Longrightarrow> match_array d s = None"
  by (simp add: match_array_def lit_def)

lemma match_check_head: "\<not> starts_with check_head s \<Longrightarrow> match_check_for_index s = None"
  by (simp add: match_check_for_index_def lit_def)

lemma match_stamp_head: "\<not> starts_with stamp_head s \<Longrightarrow> match_stamp s = None"
  by (simp add: match_stamp_def lit_def)

lemma match_lit_head: "\<not> starts_with old s \<Longrightarrow> match_lit old s = None"
  by (simp add: match_lit_def lit_def)

lemma findall_set:
  assumes "consuming m" "gs \<in> set (findall m s)"
  shows "\<exists>suf post. m suf = Some (gs, post)"
  using assms(2)
proof (induction s rule: length_induct)
  case (1 s)
  show ?case
  proof (cases "search m s")
    case None
    with 1 show ?thesis by (simp add: findall_no_match)
  next
    case (Some r)
    obtain pre gs' post where r: "r = (pre, gs', post)" by (cases r) auto
    note s = Some [unfolded r]
    from "1.prems" have "gs = gs' \<or> gs \<in> set (findall m post)"
      by (simp add: findall_match [OF assms(1) s])
    then show ?thesis
    proof
      assume "gs = gs'"
      with search_SomeD [OF s] show ?thesis by blast
    next
      assume "gs \<in> set (findall m post)"
      with "1.IH" search_consuming(1) [OF assms(1) s] show ?thesis by blast
    qed
  qed
qed


subsection \<open>Texts that a substitution leaves as they are\<close>

lemma expand_Nil [simp]: "expand [] gs = []"
  by (simp add: expand_def)

lemma expand_item_groups:
  "expand_item [g1, g2, g3] (Grp (Suc 0)) = g1" "expand_item [g1, g2, g3] (Grp 3) = g3"
  by (simp_all add: expand_item_def numeral_3_eq_3)

lemma expand_groups3:
  "expand (Grp 1 # map (\<lambda>c. Lit [c]) mid @ [Grp 3]) [g1, g2, g3] = g1 @ mid @ g3"
  by (simp add: expand_item_groups)

lemma array_step_fixed:
  assumes "\<forall>gs \<in> set (findall (match_array d) s). gs ! 1 = mid"
  shows "sub_all (match_array d) (expand (Grp 1 # map (\<lambda>c. Lit [c]) mid @ [Grp 3])) s = s"
proof (rule sub_all_fixed [OF consuming_match_array])
  show "\<forall>gs \<in> set (findall (match_array d) s).
      expand (Grp 1 # map (\<lambda>c. Lit [c]) mid @ [Grp 3]) gs = concat gs"
  proof
    fix gs assume g: "gs \<in> set (findall (match_array d) s)"
    from findall_set [OF consuming_match_array g] obtain body where "gs = [d, body, ''];'']"
      unfolding match_array_Some by blast
    moreover from g assms have "gs ! 1 = mid" by blast
    ultimately show "expand (Grp 1 # map (\<lambda>c. Lit [c]) mid @ [Grp 3]) gs = concat gs"
      by (simp only: expand_groups3) simp
  qed
qed

lemma check_step_fixed:
  assumes "\<forall>gs \<in> set (findall match_check_for_index s). gs ! 1 = mid"
  shows "sub_all match_check_for_index (expand (Grp 1 # map (\<lambda>c. Lit [c]) mid @ [Grp 3])) s = s"
proof (rule sub_all_fixed [OF consuming_match_check])
  show "\<forall>gs \<in> set (findall match_check_for_index s).
      expand (Grp 1 # map (\<lambda>c. Lit [c]) mid @ [Grp 3]) gs = concat gs"
  proof
    fix gs assume g: "gs \<in> set (findall match_check_for_index s)"
    from findall_set [OF consuming_match_check g] obtain g1 expr g3 where "gs = [g1, expr, g3]"
      by (blast dest: match_check_Some)
    moreover from g assms have "gs ! 1 = mid" by blast
    ultimately show "expand (Grp 1 # map (\<lambda>c. Lit [c]) mid @ [Grp 3]) gs = concat gs"
      by (simp only: expand_groups3) simp
  qed
qed


end
